theory Spec2Isabelle
  imports Complex_Main
begin

text \<open>
  The page logic of \<open>app.js\<close>: the persistence of the labeled face descriptors in the
  key-value store of the browser, the matcher that is rebuilt from them, registration, clear,
  export and import, and the render loop that shows what the detector finds.
\<close>

section \<open>Values\<close>

text \<open>
  The values that \<open>JSON.parse\<close> returns.  A number is a finite double, hence a rational; a
  string is a list of code units below 256.  The list of an object holds its own properties
  in enumeration order and never repeats a key (\<open>JSON.parse\<close> keeps the last duplicate).
\<close>

datatype json =
    JNull
  | JBool bool
  | JNum rat
  | JStr string
  | JArr "json list"
  | JObj "(string \<times> json) list"

datatype error = TypeError | FetchError | NotAllowedError

text \<open>
  The collaborators of the face-analysis library are kept symbolic: a typed array records the
  value it was built from, a labeled group its label and arrays, a matcher its groups and its
  distance threshold.  The validation that the library's constructors perform on their
  arguments is the library's own and is not part of this development.
\<close>

datatype float32array = Float32Array json

datatype labeled = LabeledFaceDescriptors string "float32array list"

datatype matcher = FaceMatcher "labeled list" rat

datatype detection_options =
    TinyFaceDetectorOptions int rat
  | SsdMobilenetv1Options rat

datatype image_file = File string

fun file_name :: "image_file \<Rightarrow> string" where
  "file_name (File n) = n"

record detection =
  expressions :: "(string \<times> rat) list option"
  descriptor :: "rat list option"

datatype status = NotLoaded | Loading | Loaded | LoadFailed

datatype expr_text = Dash | ExprText string int

datatype log = Warn string | Err error | Uncaught error

subsection \<open>The platform\<close>

text \<open>
  What the browser and the library compute is a parameter of the model: the JSON codec
  (\<open>JSON_parse\<close> is \<open>None\<close> where \<open>JSON.parse\<close> throws), the conversion of a value to a
  string, the detectors (for one image file: the descriptor of the face found, if any; for the
  current video frame: the faces found under the given options), the matcher's query, and
  whether the model files, the camera and \<open>navigator.mediaDevices\<close> are there.  The calls
  are taken to return: a file that cannot be read as an image, a detector that throws and a
  key-value store that is full are not part of the model.

  \<open>indexed_concat\<close> is what the two statements that extend an entry leave of a document
  that is a string or an array: the exception, or the document as \<open>JSON.stringify\<close> will
  see it.  It depends on whether the name is an index and on what strings and arrays inherit
  in the engine at hand, and such a document is not a store of the data model.
\<close>

record platform =
  JSON_parse :: "string \<Rightarrow> json option"
  JSON_stringify :: "json \<Rightarrow> string"
  ToString :: "json \<Rightarrow> string"
  indexed_concat :: "json \<Rightarrow> string \<Rightarrow> json list \<Rightarrow> error + json"
  detectSingleFace :: "image_file \<Rightarrow> rat list option"
  detectAllFaces :: "detection_options \<Rightarrow> detection list"
  findBestMatch :: "matcher \<Rightarrow> rat list \<Rightarrow> string \<times> rat"
  loadFromUri :: bool
  getUserMedia :: bool
  mediaDevices :: bool

subsection \<open>The state of the page\<close>

record app =
  localStorage :: "string \<rightharpoonup> string"
  stream_open :: bool
  detectionOptions :: detection_options
  isModelsLoaded :: bool
  running :: bool
  faceMatcher :: "matcher option"
  modelsStatus :: status
  expressionsEl :: expr_text
  identifiedList :: "(string \<times> rat) list"
  dbCount :: nat
  detectionModelSelect :: string
  inputSizeEl :: "int option"
  scoreThresholdEl :: "rat option"
  labelNameInput :: string
  labeledImagesInput :: "image_file list"
  alerts :: "string list"
  console :: "log list"
  downloads :: "(string \<times> string) list"
  detectorCalls :: "detection_options list"
  frameRequests :: nat

text \<open>
  \<open>inputSizeEl\<close> and \<open>scoreThresholdEl\<close> hold what \<open>parseInt\<close> and \<open>parseFloat\<close> make of the
  two controls (\<open>None\<close> for \<open>NaN\<close>).  \<open>alerts\<close>, \<open>console\<close>, \<open>downloads\<close>, \<open>detectorCalls\<close> and
  \<open>frameRequests\<close> log what the page shows, writes to the console, offers for download,
  passes to \<open>detectAllFaces\<close> and asks of \<open>requestAnimationFrame\<close>.  Drawing on the overlay
  and the age and gender estimates are left out: they neither read nor write the rest.
  Each handler runs to its end before the next one starts.
\<close>

definition LS_DB_KEY :: string where
  "LS_DB_KEY = ''facelab_db_v1''"

definition alert :: "string \<Rightarrow> app \<Rightarrow> app" where
  "alert msg st = st\<lparr>alerts := alerts st @ [msg]\<rparr>"

definition console_log :: "log \<Rightarrow> app \<Rightarrow> app" where
  "console_log l st = st\<lparr>console := console st @ [l]\<rparr>"

definition getItem :: "string \<Rightarrow> app \<Rightarrow> string option" where
  "getItem k st = localStorage st k"

definition setItem :: "string \<Rightarrow> string \<Rightarrow> app \<Rightarrow> app" where
  "setItem k v st = st\<lparr>localStorage := (localStorage st)(k \<mapsto> v)\<rparr>"

definition removeItem :: "string \<Rightarrow> app \<Rightarrow> app" where
  "removeItem k st = st\<lparr>localStorage := (localStorage st)(k := None)\<rparr>"

section \<open>Persistence utilities\<close>

definition saveDB :: "platform \<Rightarrow> json \<Rightarrow> app \<Rightarrow> app" where
  "saveDB P db st = setItem LS_DB_KEY (JSON_stringify P db) st"

text \<open>\<open>getItem(...) || '{}'\<close>: an absent entry and the empty string both give \<open>'{}'\<close>.\<close>

definition loadDB :: "platform \<Rightarrow> app \<Rightarrow> json" where
  "loadDB P st =
     (let text = (case getItem LS_DB_KEY st of
                    None \<Rightarrow> ''{}''
                  | Some s \<Rightarrow> if s = [] then ''{}'' else s)
      in case JSON_parse P text of
           Some v \<Rightarrow> v
         | None \<Rightarrow> JObj [])"

section \<open>The matcher\<close>

function decimal :: "nat \<Rightarrow> string" where
  "decimal n =
     (if n < 10 then [char_of (48 + n)]
      else decimal (n div 10) @ [char_of (48 + n mod 10)])"
  by pat_completeness auto
termination
  by (relation "measure id") auto

text \<open>
  \<open>Object.keys(db)\<close>, each key with \<open>db[label]\<close>.  \<open>null\<close> has no keys to ask for; a number or
  a boolean has none; a string and an array have their indices.
\<close>

fun entries :: "json \<Rightarrow> error + (string \<times> json) list" where
  "entries JNull = Inl TypeError"
| "entries (JBool b) = Inr []"
| "entries (JNum n) = Inr []"
| "entries (JStr s) = Inr (zip (map decimal [0..<length s]) (map (\<lambda>c. JStr [c]) s))"
| "entries (JArr xs) = Inr (zip (map decimal [0..<length xs]) xs)"
| "entries (JObj kvs) = Inr kvs"

text \<open>
  The loop of \<open>makeFaceMatcherFromStorage\<close>: only an array has \<open>map\<close>; every key is pushed
  and counted, whatever the length of its array.
\<close>

fun labeledDescriptors_loop ::
  "(string \<times> json) list \<Rightarrow> labeled list \<Rightarrow> nat \<Rightarrow> error + labeled list \<times> nat" where
  "labeledDescriptors_loop [] labeledDescriptors count = Inr (labeledDescriptors, count)"
| "labeledDescriptors_loop ((label, descriptorArrays) # rest) labeledDescriptors count =
     (case descriptorArrays of
        JArr ds \<Rightarrow>
          labeledDescriptors_loop rest
            (labeledDescriptors @ [LabeledFaceDescriptors label (map Float32Array ds)])
            (Suc count)
      | _ \<Rightarrow> Inl TypeError)"

definition makeFaceMatcherFromStorage :: "platform \<Rightarrow> app \<Rightarrow> error + app" where
  "makeFaceMatcherFromStorage P st =
     (case entries (loadDB P st) of
        Inl e \<Rightarrow> Inl e
      | Inr es \<Rightarrow>
          (case labeledDescriptors_loop es [] 0 of
             Inl e \<Rightarrow> Inl e
           | Inr (labeledDescriptors, count) \<Rightarrow>
               Inr (st\<lparr>dbCount := count,
                       faceMatcher :=
                         (if labeledDescriptors \<noteq> []
                          then Some (FaceMatcher labeledDescriptors (3 / 5))
                          else None)\<rparr>)))"

text \<open>A call whose exception nobody catches: the state stays as it is and the console tells.\<close>

definition rebuild :: "platform \<Rightarrow> app \<Rightarrow> app" where
  "rebuild P st =
     (case makeFaceMatcherFromStorage P st of
        Inl e \<Rightarrow> console_log (Uncaught e) st
      | Inr st' \<Rightarrow> st')"

section \<open>Registration\<close>

text \<open>
  \<open>String.prototype.trim\<close> on code units below 256: tab, line feed, vertical tab, form feed,
  carriage return, space and no-break space go, at both ends.
\<close>

definition is_space :: "char \<Rightarrow> bool" where
  "is_space c = (of_char c \<in> {9, 10, 11, 12, 13, 32, 160 :: nat})"

definition trim :: "string \<Rightarrow> string" where
  "trim s = rev (dropWhile is_space (rev (dropWhile is_space s)))"

fun truthy :: "json \<Rightarrow> bool" where
  "truthy JNull = False"
| "truthy (JBool b) = b"
| "truthy (JNum n) = (n \<noteq> 0)"
| "truthy (JStr s) = (s \<noteq> [])"
| "truthy (JArr xs) = True"
| "truthy (JObj kvs) = True"

text \<open>
  What a plain object inherits from \<open>Object.prototype\<close>: eleven functions and the accessor
  \<open>__proto__\<close>.  Reading one of these names from an object that has no own property of that
  name gives the inherited value, which is truthy and has no \<open>concat\<close>.
\<close>

definition Object_prototype_names :: "string list" where
  "Object_prototype_names =
     [''constructor'', ''__defineGetter__'', ''__defineSetter__'', ''hasOwnProperty'',
      ''__lookupGetter__'', ''__lookupSetter__'', ''isPrototypeOf'', ''propertyIsEnumerable'',
      ''toString'', ''valueOf'', ''__proto__'', ''toLocaleString'']"

fun set_property :: "string \<Rightarrow> json \<Rightarrow> (string \<times> json) list \<Rightarrow> (string \<times> json) list" where
  "set_property k v [] = [(k, v)]"
| "set_property k v ((k', v') # kvs) =
     (if k = k' then (k, v) # kvs else (k', v') # set_property k v kvs)"

text \<open>
  \<open>if (!db[label]) db[label] = []; db[label] = db[label].concat(descriptors);\<close>
  On an object: an own value that is falsy is replaced by the empty array first; an array is
  extended; a string is extended by the text of the descriptors; any other own value, and any
  value inherited from \<open>Object.prototype\<close>, has no \<open>concat\<close> to call.  On \<open>null\<close> the
  read fails; on a number or a boolean the read gives \<open>undefined\<close> or an inherited function,
  the assignment leaves nothing behind, and the call fails.
\<close>

fun concat_entry :: "platform \<Rightarrow> json \<Rightarrow> string \<Rightarrow> json list \<Rightarrow> error + json" where
  "concat_entry P (JObj kvs) label descriptors =
     (case map_of kvs label of
        Some v \<Rightarrow>
          (if \<not> truthy v then Inr (JObj (set_property label (JArr ([] @ descriptors)) kvs))
           else (case v of
                   JArr xs \<Rightarrow> Inr (JObj (set_property label (JArr (xs @ descriptors)) kvs))
                 | JStr s \<Rightarrow>
                     Inr (JObj (set_property label (JStr (s @ ToString P (JArr descriptors))) kvs))
                 | _ \<Rightarrow> Inl TypeError))
      | None \<Rightarrow>
          (if label \<in> set Object_prototype_names then Inl TypeError
           else Inr (JObj (set_property label (JArr ([] @ descriptors)) kvs))))"
| "concat_entry P JNull label descriptors = Inl TypeError"
| "concat_entry P (JBool b) label descriptors = Inl TypeError"
| "concat_entry P (JNum n) label descriptors = Inl TypeError"
| "concat_entry P (JStr s) label descriptors = indexed_concat P (JStr s) label descriptors"
| "concat_entry P (JArr xs) label descriptors = indexed_concat P (JArr xs) label descriptors"

text \<open>The loop over the chosen files: a file without a face is warned about and skipped.\<close>

fun extract_descriptors ::
  "platform \<Rightarrow> image_file list \<Rightarrow> json list \<Rightarrow> app \<Rightarrow> json list \<times> app" where
  "extract_descriptors P [] descriptors st = (descriptors, st)"
| "extract_descriptors P (f # fs) descriptors st =
     (case detectSingleFace P f of
        None \<Rightarrow>
          extract_descriptors P fs descriptors
            (console_log (Warn (''No face found in '' @ file_name f)) st)
      | Some d \<Rightarrow> extract_descriptors P fs (descriptors @ [JArr (map JNum d)]) st)"

text \<open>
  The last alert is written with quotes, not backquotes, in the source: its text is shown as
  it stands.
\<close>

definition registerLabeledFaces :: "platform \<Rightarrow> app \<Rightarrow> app" where
  "registerLabeledFaces P st =
     (let files = labeledImagesInput st;
          label = trim (labelNameInput st)
      in if label = [] then alert ''Enter a name to register'' st
         else if files = [] then alert ''Choose one or more images for this person'' st
         else if \<not> isModelsLoaded st then alert ''Load models first'' st
         else
           (case extract_descriptors P files [] st of
              (descriptors, st1) \<Rightarrow>
                if descriptors = []
                then alert ''No faces detected in uploaded images. Try clearer photos.'' st1
                else
                  (case concat_entry P (loadDB P st1) label descriptors of
                     Inl e \<Rightarrow> console_log (Uncaught e) st1
                   | Inr db \<Rightarrow>
                       (case makeFaceMatcherFromStorage P (saveDB P db st1) of
                          Inl e \<Rightarrow> console_log (Uncaught e) (saveDB P db st1)
                        | Inr st3 \<Rightarrow>
                            (alert ''Registered ${descriptors.length} face(s) for ${label}'' st3)
                              \<lparr>labeledImagesInput := [], labelNameInput := []\<rparr>))))"

section \<open>Clear, export, import\<close>

definition btnClearDB_click :: "platform \<Rightarrow> bool \<Rightarrow> app \<Rightarrow> app" where
  "btnClearDB_click P confirmed st =
     (if \<not> confirmed then st
      else rebuild P (removeItem LS_DB_KEY st))"

definition btnExport_click :: "platform \<Rightarrow> app \<Rightarrow> app" where
  "btnExport_click P st =
     (let db = loadDB P st
      in st\<lparr>downloads := downloads st @ [(''facelab_db.json'', JSON_stringify P db)]\<rparr>)"

text \<open>
  The \<open>try\<close> of the import encloses the parse, the write and the rebuild: whatever fails,
  the same alert is shown.
\<close>

definition importFileInput_change :: "platform \<Rightarrow> string option \<Rightarrow> app \<Rightarrow> app" where
  "importFileInput_change P f st =
     (case f of
        None \<Rightarrow> st
      | Some text \<Rightarrow>
          (case JSON_parse P text of
             None \<Rightarrow> alert ''Invalid JSON file'' st
           | Some parsed \<Rightarrow>
               (let st1 = setItem LS_DB_KEY (JSON_stringify P parsed) st
                in case makeFaceMatcherFromStorage P st1 of
                     Inl e \<Rightarrow> alert ''Invalid JSON file'' st1
                   | Inr st2 \<Rightarrow> alert ''Imported DB successfully'' st2)))"

section \<open>Models, camera and the render loop\<close>

definition loadModels :: "platform \<Rightarrow> app \<Rightarrow> app" where
  "loadModels P st =
     (let st1 = st\<lparr>modelsStatus := Loading\<rparr>
      in if loadFromUri P
         then (let st2 = st1\<lparr>isModelsLoaded := True, modelsStatus := Loaded\<rparr>
               in case makeFaceMatcherFromStorage P st2 of
                    Inl e \<Rightarrow> (console_log (Err e) st2)\<lparr>modelsStatus := LoadFailed\<rparr>
                  | Inr st3 \<Rightarrow> st3)
         else (console_log (Err FetchError) st1)\<lparr>modelsStatus := LoadFailed\<rparr>)"

text \<open>\<open>parseInt(...) || 320\<close> and \<open>parseFloat(...) || 0.5\<close>: \<open>NaN\<close> and zero give the default.\<close>

definition updateDetectionOptions :: "app \<Rightarrow> app" where
  "updateDetectionOptions st =
     (let model = detectionModelSelect st;
          inputSize = (case inputSizeEl st of
                         None \<Rightarrow> 320
                       | Some n \<Rightarrow> if n = 0 then 320 else n);
          scoreThreshold = (case scoreThresholdEl st of
                              None \<Rightarrow> 1 / 2
                            | Some x \<Rightarrow> if x = 0 then 1 / 2 else x)
      in if model = ''tiny''
         then st\<lparr>detectionOptions := TinyFaceDetectorOptions inputSize scoreThreshold\<rparr>
         else st\<lparr>detectionOptions := SsdMobilenetv1Options scoreThreshold\<rparr>)"

text \<open>
  \<open>Array.prototype.sort\<close> with a comparison function is stable; for a consistent comparison
  the result of a stable sort is determined, and insertion from the right computes it: an
  element goes in front of the first one it must not follow.
\<close>

fun sort_insert :: "('a \<Rightarrow> 'a \<Rightarrow> rat) \<Rightarrow> 'a \<Rightarrow> 'a list \<Rightarrow> 'a list" where
  "sort_insert cmp x [] = [x]"
| "sort_insert cmp x (y # ys) =
     (if cmp x y \<le> 0 then x # y # ys else y # sort_insert cmp x ys)"

fun Array_sort :: "('a \<Rightarrow> 'a \<Rightarrow> rat) \<Rightarrow> 'a list \<Rightarrow> 'a list" where
  "Array_sort cmp [] = []"
| "Array_sort cmp (x # xs) = sort_insert cmp x (Array_sort cmp xs)"

definition maxExp :: "(string \<times> rat) list \<Rightarrow> (string \<times> rat) option" where
  "maxExp expr =
     (case Array_sort (\<lambda>a b. snd b - snd a) expr of
        [] \<Rightarrow> None
      | e # _ \<Rightarrow> Some e)"

definition Math_round :: "rat \<Rightarrow> int" where
  "Math_round x = \<lfloor>x + 1 / 2\<rfloor>"

definition expText :: "(string \<times> rat) list \<Rightarrow> expr_text" where
  "expText expr =
     (case maxExp expr of
        Some m \<Rightarrow> ExprText (fst m) (Math_round (snd m * 100))
      | None \<Rightarrow> Dash)"

text \<open>The body of the loop over the faces of one frame, with the identifications so far.\<close>

definition show_face ::
  "platform \<Rightarrow> app \<times> (string \<times> rat) list \<Rightarrow> detection \<Rightarrow> app \<times> (string \<times> rat) list" where
  "show_face P acc det =
     (case acc of
        (st, identifications) \<Rightarrow>
          (let expr = (case expressions det of None \<Rightarrow> [] | Some e \<Rightarrow> e);
               st1 = st\<lparr>expressionsEl := expText expr\<rparr>
           in case (faceMatcher st1, descriptor det) of
                (Some fm, Some d) \<Rightarrow>
                  (let best = findBestMatch P fm d
                   in if fst best \<noteq> ''unknown''
                      then (st1, identifications @ [best])
                      else (st1, identifications))
              | _ \<Rightarrow> (st1, identifications)))"

definition requestAnimationFrame :: "app \<Rightarrow> app" where
  "requestAnimationFrame st = st\<lparr>frameRequests := Suc (frameRequests st)\<rparr>"

definition detectionLoop :: "platform \<Rightarrow> app \<Rightarrow> app" where
  "detectionLoop P st =
     (if \<not> running st then st
      else if \<not> isModelsLoaded st then requestAnimationFrame st
      else
        (let st1 = updateDetectionOptions st;
             options = SsdMobilenetv1Options (1 / 2);
             detections = detectAllFaces P options;
             st2 = st1\<lparr>detectorCalls := detectorCalls st1 @ [options]\<rparr>
         in case foldl (show_face P) (st2, []) detections of
              (st3, identifications) \<Rightarrow>
                requestAnimationFrame (st3\<lparr>identifiedList := identifications\<rparr>)))"

definition startVideo :: "platform \<Rightarrow> app \<Rightarrow> app" where
  "startVideo P st =
     (if getUserMedia P
      then detectionLoop P (st\<lparr>stream_open := True, running := True\<rparr>)
      else console_log (Err NotAllowedError)
             (alert ''Camera access denied or not available. Check permissions and that you are using https/http://localhost.'' st))"

definition stopVideo :: "app \<Rightarrow> app" where
  "stopVideo st = st\<lparr>running := False, stream_open := False\<rparr>"

definition btnStart_click :: "platform \<Rightarrow> app \<Rightarrow> app" where
  "btnStart_click P st =
     startVideo P (if \<not> isModelsLoaded st then loadModels P st else st)"

definition DOMContentLoaded :: "platform \<Rightarrow> app \<Rightarrow> app" where
  "DOMContentLoaded P st =
     rebuild P
       (if \<not> mediaDevices P
        then alert ''Your browser does not support camera access. Use latest Chrome/Edge/Firefox/Safari.'' st
        else st)"

section \<open>Events\<close>

text \<open>
  The listeners of the page.  The change of a control, the choice of files and the answer to
  \<open>confirm\<close> come with the state or the event; the import button only opens the file dialog.
\<close>

datatype event =
    LoadModelsClick
  | StartClick
  | StopClick
  | ControlChange
  | AnimationFrame
  | RegisterClick
  | ClearDBClick bool
  | ExportClick
  | ImportClick
  | ImportChange "string option"
  | ContentLoaded

fun handle :: "platform \<Rightarrow> event \<Rightarrow> app \<Rightarrow> app" where
  "handle P LoadModelsClick st = loadModels P st"
| "handle P StartClick st = btnStart_click P st"
| "handle P StopClick st = stopVideo st"
| "handle P ControlChange st = updateDetectionOptions st"
| "handle P AnimationFrame st = detectionLoop P st"
| "handle P RegisterClick st = registerLabeledFaces P st"
| "handle P (ClearDBClick confirmed) st = btnClearDB_click P confirmed st"
| "handle P ExportClick st = btnExport_click P st"
| "handle P ImportClick st = st"
| "handle P (ImportChange f) st = importFileInput_change P f st"
| "handle P ContentLoaded st = DOMContentLoaded P st"

section \<open>Stores of the data model\<close>

text \<open>
  A well-formed store: an object whose values are arrays of arrays of numbers.
\<close>

fun is_number :: "json \<Rightarrow> bool" where
  "is_number (JNum n) = True"
| "is_number _ = False"

fun is_vector :: "json \<Rightarrow> bool" where
  "is_vector (JArr xs) = list_all is_number xs"
| "is_vector _ = False"

fun is_collection :: "json \<Rightarrow> bool" where
  "is_collection (JArr vs) = list_all is_vector vs"
| "is_collection _ = False"

fun wf_store :: "json \<Rightarrow> bool" where
  "wf_store (JObj kvs) =
     (distinct (map fst kvs) \<and> list_all (\<lambda>kv. is_collection (snd kv)) kvs)"
| "wf_store _ = False"

text \<open>The group that the loop pushes for one entry of a well-formed store.\<close>

fun group_of :: "string \<times> json \<Rightarrow> labeled" where
  "group_of (label, JArr ds) = LabeledFaceDescriptors label (map Float32Array ds)"
| "group_of (label, _) = LabeledFaceDescriptors label []"

text \<open>
  In the words of the specification: every name of the store maps to an empty descriptor
  collection.
\<close>

fun every_collection_empty :: "json \<Rightarrow> bool" where
  "every_collection_empty (JObj kvs) = list_all (\<lambda>kv. snd kv = JArr []) kvs"
| "every_collection_empty _ = False"

text \<open>What a rebuild makes of the matcher, and whether the matcher in memory is that.\<close>

definition rebuilt_matcher :: "platform \<Rightarrow> app \<Rightarrow> error + matcher option" where
  "rebuilt_matcher P st =
     (case makeFaceMatcherFromStorage P st of
        Inl e \<Rightarrow> Inl e
      | Inr st' \<Rightarrow> Inr (faceMatcher st'))"


text \<open>The same page with one entry of the key-value store set or removed.\<close>

definition with_entry :: "string \<Rightarrow> string option \<Rightarrow> app \<Rightarrow> app" where
  "with_entry k v st = st\<lparr>localStorage := (localStorage st)(k := v)\<rparr>"

text \<open>The entry of a name in a document, as a map.\<close>

fun entry :: "json \<Rightarrow> string \<Rightarrow> json option" where
  "entry (JObj kvs) label = map_of kvs label"
| "entry _ label = None"

text \<open>
  An entry of a list of scores that no earlier entry reaches and no later entry exceeds.
\<close>

definition first_max :: "(string \<times> rat) list \<Rightarrow> string \<times> rat \<Rightarrow> bool" where
  "first_max expr m \<longleftrightarrow>
     (\<exists>before after. expr = before @ m # after \<and>
        (\<forall>e \<in> set before. snd e < snd m) \<and> (\<forall>e \<in> set after. snd e \<le> snd m))"

text \<open>
  The descriptors that the detector finds in a list of files, the warnings for the files
  without a face, the number of files with a face, and the collection that an entry holds.
\<close>

definition found_descriptors :: "platform \<Rightarrow> image_file list \<Rightarrow> json list" where
  "found_descriptors P fs =
     concat (map (\<lambda>f. case detectSingleFace P f of
                          None \<Rightarrow> []
                        | Some d \<Rightarrow> [JArr (map JNum d)]) fs)"

definition warnings :: "platform \<Rightarrow> image_file list \<Rightarrow> log list" where
  "warnings P fs =
     map (\<lambda>f. Warn (''No face found in '' @ file_name f))
       (filter (\<lambda>f. detectSingleFace P f = None) fs)"

definition faces_in :: "platform \<Rightarrow> image_file list \<Rightarrow> nat" where
  "faces_in P fs = length (filter (\<lambda>f. detectSingleFace P f \<noteq> None) fs)"

fun collection_of :: "json option \<Rightarrow> json list" where
  "collection_of (Some (JArr xs)) = xs"
| "collection_of _ = []"

section \<open>An example platform\<close>

text \<open>
  A platform with a handful of documents, for evaluating the handlers: its codec knows
  five texts, its detector finds a face in \<open>face.png\<close> only, its matcher knows nobody.
\<close>

definition dq :: string where
  "dq = [CHR 0x22]"

definition alice_empty :: json where
  "alice_empty = JObj [(''Alice'', JArr [])]"

definition ann_store :: json where
  "ann_store = JObj [(''Ann'', JArr [JArr [JNum 1, JNum 2]])]"

definition ann_store2 :: json where
  "ann_store2 = JObj [(''Ann'', JArr [JArr [JNum 1, JNum 2], JArr [JNum 3, JNum 4]])]"

definition documents :: "(string \<times> json) list" where
  "documents =
     [(''{}'', JObj []),
      (''null'', JNull),
      (''{'' @ dq @ ''Alice'' @ dq @ '':[]}'', alice_empty),
      (''{'' @ dq @ ''Ann'' @ dq @ '':[[1,2]]}'', ann_store),
      (''{'' @ dq @ ''Ann'' @ dq @ '':[[1,2],[3,4]]}'', ann_store2)]"

definition test_platform :: platform where
  "test_platform =
     \<lparr>JSON_parse = map_of documents,
      JSON_stringify = (\<lambda>v. case find (\<lambda>d. snd d = v) documents of
                                Some d \<Rightarrow> fst d
                              | None \<Rightarrow> ''null''),
      ToString = (\<lambda>v. []),
      indexed_concat = (\<lambda>d label ds. Inl TypeError),
      detectSingleFace = (\<lambda>f. if file_name f = ''face.png'' then Some [3, 4] else None),
      detectAllFaces =
        (\<lambda>opts. [\<lparr>expressions = Some [(''neutral'', 1 / 10), (''happy'', 9 / 10)],
                    descriptor = Some [3, 4]\<rparr>]),
      findBestMatch = (\<lambda>m d. (''unknown'', 1)),
      loadFromUri = True,
      getUserMedia = True,
      mediaDevices = True\<rparr>"

text \<open>
  A page with models loaded and the camera running, the controls at \<open>tiny\<close>, 416 and 0.3,
  two files chosen, and the given name and stored text.
\<close>

definition page :: "string \<Rightarrow> string option \<Rightarrow> app" where
  "page name stored =
     \<lparr>localStorage = Map.empty(LS_DB_KEY := stored),
      stream_open = True,
      detectionOptions = TinyFaceDetectorOptions 320 (1 / 2),
      isModelsLoaded = True,
      running = True,
      faceMatcher = None,
      modelsStatus = Loaded,
      expressionsEl = Dash,
      identifiedList = [],
      dbCount = 0,
      detectionModelSelect = ''tiny'',
      inputSizeEl = Some 416,
      scoreThresholdEl = Some (3 / 10),
      labelNameInput = name,
      labeledImagesInput = [File ''wall.png'', File ''face.png''],
      alerts = [],
      console = [],
      downloads = [],
      detectorCalls = [],
      frameRequests = 0\<rparr>"

definition stored :: "json \<Rightarrow> string option" where
  "stored db = Some (JSON_stringify test_platform db)"

text \<open>A face whose two best expressions are tied.\<close>

definition tied_expressions :: "(string \<times> rat) list" where
  "tied_expressions = [(''neutral'', 1 / 10), (''happy'', 2 / 5), (''sad'', 2 / 5)]"

definition tied :: detection where
  "tied = \<lparr>expressions = Some tied_expressions, descriptor = None\<rparr>"

text \<open>The example page with nothing stored and the name \<open>constructor\<close> entered.\<close>

definition constructor_page :: app where
  "constructor_page = page ''constructor'' None"

section \<open>Properties\<close>

subsection \<open>The rebuild on a well-formed store\<close>

lemma loop_collections:
  "list_all (\<lambda>kv. is_collection (snd kv)) kvs \<Longrightarrow>
   labeledDescriptors_loop kvs acc n = Inr (acc @ map group_of kvs, n + length kvs)"
proof (induction kvs arbitrary: acc n)
  case Nil
  then show ?case by simp
next
  case (Cons kv kvs)
  obtain label d where kv: "kv = (label, d)" by (cases kv)
  from Cons.prems kv obtain ds where d: "d = JArr ds"
    by (cases d) auto
  from Cons.prems have rest: "list_all (\<lambda>kv. is_collection (snd kv)) kvs" by simp
  show ?case
    using Cons.IH [OF rest] by (simp add: kv d)
qed

lemma rebuild_wf:
  assumes "loadDB P st = JObj kvs" and "list_all (\<lambda>kv. is_collection (snd kv)) kvs"
  shows "makeFaceMatcherFromStorage P st =
           Inr (st\<lparr>dbCount := length kvs,
                   faceMatcher := (if kvs = [] then None
                                   else Some (FaceMatcher (map group_of kvs) (3 / 5)))\<rparr>)"
  using assms by (simp add: makeFaceMatcherFromStorage_def loop_collections)

subsection \<open>The example platform\<close>

lemmas example_defs =
  test_platform_def documents_def dq_def alice_empty_def ann_store_def ann_store2_def
  page_def stored_def LS_DB_KEY_def getItem_def

lemma load_alice_empty: "loadDB test_platform (page name (stored alice_empty)) = alice_empty"
  by (simp add: loadDB_def example_defs)

lemma parse_braces: "JSON_parse test_platform ''{}'' = Some (JObj [])"
  by (simp add: example_defs)

lemma parse_oops: "JSON_parse test_platform ''{oops'' = None"
  by (simp add: example_defs)

subsection \<open>One frame\<close>

lemma show_face_frame:
  "\<exists>e ids'. show_face P (st, ids) det = (st\<lparr>expressionsEl := e\<rparr>, ids')"
  by (auto simp add: show_face_def Let_def split: option.splits)

lemma faces_frame:
  "\<exists>e ids'. foldl (show_face P) (st, ids) dets = (st\<lparr>expressionsEl := e\<rparr>, ids')"
proof (induction dets arbitrary: st ids)
  case Nil
  have "st = st\<lparr>expressionsEl := expressionsEl st\<rparr>" by simp
  then show ?case by (metis foldl_Nil)
next
  case (Cons det dets)
  obtain e ids' where step: "show_face P (st, ids) det = (st\<lparr>expressionsEl := e\<rparr>, ids')"
    using show_face_frame by blast
  obtain e' ids'' where rest:
    "foldl (show_face P) (st\<lparr>expressionsEl := e\<rparr>, ids') dets =
       (st\<lparr>expressionsEl := e\<rparr>\<lparr>expressionsEl := e'\<rparr>, ids'')"
    using Cons.IH by blast
  have "foldl (show_face P) (st, ids) (det # dets) = (st\<lparr>expressionsEl := e'\<rparr>, ids'')"
    using step rest by simp
  then show ?case by blast
qed

text \<open>
  Whatever the controls say, a frame that reaches the detector passes it the same options;
  the options computed from the controls are stored and not used.
\<close>

lemma detectionLoop_options:
  assumes "running st" and "isModelsLoaded st"
  shows "detectorCalls (detectionLoop P st) = detectorCalls st @ [SsdMobilenetv1Options (1 / 2)]"
    and "detectionOptions (detectionLoop P st) = detectionOptions (updateDetectionOptions st)"
proof -
  let ?st2 = "(updateDetectionOptions st)\<lparr>detectorCalls :=
      detectorCalls (updateDetectionOptions st) @ [SsdMobilenetv1Options (1 / 2)]\<rparr>"
  obtain e ids' where faces:
    "foldl (show_face P) (?st2, []) (detectAllFaces P (SsdMobilenetv1Options (1 / 2))) =
       (?st2\<lparr>expressionsEl := e\<rparr>, ids')"
    using faces_frame by blast
  have calls: "detectorCalls (updateDetectionOptions st) = detectorCalls st"
    by (simp add: updateDetectionOptions_def Let_def)
  show "detectorCalls (detectionLoop P st) = detectorCalls st @ [SsdMobilenetv1Options (1 / 2)]"
    using assms faces calls by (simp add: detectionLoop_def Let_def requestAnimationFrame_def)
  show "detectionOptions (detectionLoop P st) = detectionOptions (updateDetectionOptions st)"
    using assms faces by (simp add: detectionLoop_def Let_def requestAnimationFrame_def)
qed

subsection \<open>Registration\<close>

lemma extract_descriptors_eq:
  "extract_descriptors P fs ds st =
     (ds @ found_descriptors P fs, st\<lparr>console := console st @ warnings P fs\<rparr>)"
proof (induction fs arbitrary: ds st)
  case Nil
  then show ?case by (simp add: found_descriptors_def warnings_def)
next
  case (Cons f fs)
  show ?case
  proof (cases "detectSingleFace P f")
    case None
    then show ?thesis
      using Cons.IH by (simp add: found_descriptors_def warnings_def console_log_def)
  next
    case (Some d)
    then show ?thesis
      using Cons.IH by (simp add: found_descriptors_def warnings_def)
  qed
qed

lemma length_found_descriptors: "length (found_descriptors P fs) = faces_in P fs"
  by (induction fs) (auto simp add: found_descriptors_def faces_in_def split: option.splits)

lemma map_of_set_property:
  "map_of (set_property k v kvs) = (map_of kvs)(k \<mapsto> v)"
  by (induction kvs) (auto simp add: fun_eq_iff)

lemma fst_set_property:
  "fst ` set (set_property k v kvs) = insert k (fst ` set kvs)"
proof -
  have "dom (map_of (set_property k v kvs)) = insert k (dom (map_of kvs))"
    by (simp add: map_of_set_property)
  then show ?thesis
    by (simp only: dom_map_of_conv_image_fst)
qed

lemma distinct_set_property:
  "distinct (map fst kvs) \<Longrightarrow> distinct (map fst (set_property k v kvs))"
proof (induction kvs)
  case Nil
  then show ?case by simp
next
  case (Cons kv kvs)
  obtain k' v' where kv: "kv = (k', v')" by (cases kv)
  show ?case
  proof (cases "k = k'")
    case True
    then show ?thesis using Cons.prems kv by simp
  next
    case False
    have "fst ` set (set_property k v kvs) = insert k (fst ` set kvs)"
      by (rule fst_set_property)
    then show ?thesis
      using Cons False kv by auto
  qed
qed

lemma collections_set_property:
  "list_all (\<lambda>kv. is_collection (snd kv)) kvs \<Longrightarrow> is_collection v \<Longrightarrow>
   list_all (\<lambda>kv. is_collection (snd kv)) (set_property k v kvs)"
  by (induction kvs) auto

lemma concat_entry_wf:
  assumes "list_all (\<lambda>kv. is_collection (snd kv)) kvs"
    and "label \<notin> set Object_prototype_names \<or> map_of kvs label \<noteq> None"
  shows "concat_entry P (JObj kvs) label ds =
           Inr (JObj (set_property label (JArr (collection_of (map_of kvs label) @ ds)) kvs))"
proof (cases "map_of kvs label")
  case None
  then show ?thesis using assms(2) by simp
next
  case (Some v)
  then have "(label, v) \<in> set kvs" by (rule map_of_SomeD)
  then have "is_collection v"
    using assms(1) by (auto simp add: list_all_iff)
  then obtain xs where "v = JArr xs" by (cases v) auto
  then show ?thesis using Some by simp
qed

lemma concat_entry_others:
  "concat_entry P (JObj kvs) label ds = Inr db \<Longrightarrow> k \<noteq> label \<Longrightarrow>
   entry db k = map_of kvs k"
  by (auto simp add: map_of_set_property split: option.splits if_splits json.splits)

lemma loadDB_cong:
  "localStorage a = localStorage b \<Longrightarrow> loadDB P a = loadDB P b"
  by (simp add: loadDB_def getItem_def)

lemma rebuild_storage:
  "makeFaceMatcherFromStorage P s = Inr s' \<Longrightarrow> localStorage s' = localStorage s"
  by (auto simp add: makeFaceMatcherFromStorage_def split: sum.splits prod.splits)




lemma register_no_faces:
  assumes "trim (labelNameInput st) \<noteq> []" and "labeledImagesInput st \<noteq> []"
    and "isModelsLoaded st" and "faces_in P (labeledImagesInput st) = 0"
  shows "registerLabeledFaces P st =
           alert ''No faces detected in uploaded images. Try clearer photos.''
             (st\<lparr>console := console st @ warnings P (labeledImagesInput st)\<rparr>)"
proof -
  have "found_descriptors P (labeledImagesInput st) = []"
    using assms(4) length_found_descriptors [of P "labeledImagesInput st"] by simp
  then show ?thesis
    using assms(1-3) by (simp add: registerLabeledFaces_def Let_def extract_descriptors_eq)
qed

lemma register_appends:
  assumes name: "trim (labelNameInput st) = label" "label \<noteq> []"
    and loaded: "isModelsLoaded st"
    and store: "loadDB P st = JObj kvs" "list_all (\<lambda>kv. is_collection (snd kv)) kvs"
    and own: "label \<notin> set Object_prototype_names \<or> map_of kvs label \<noteq> None"
    and faces: "0 < faces_in P (labeledImagesInput st)"
  shows "localStorage (registerLabeledFaces P st) =
           (localStorage st)(LS_DB_KEY \<mapsto>
              JSON_stringify P
                (JObj (set_property label
                   (JArr (collection_of (map_of kvs label) @
                      found_descriptors P (labeledImagesInput st))) kvs)))"
proof -
  let ?files = "labeledImagesInput st"
  let ?st1 = "st\<lparr>console := console st @ warnings P ?files\<rparr>"
  let ?db = "JObj (set_property label
      (JArr (collection_of (map_of kvs label) @ found_descriptors P ?files)) kvs)"
  have files: "?files \<noteq> []"
    using faces by (auto simp add: faces_in_def)
  have found: "found_descriptors P ?files \<noteq> []"
    using faces length_found_descriptors [of P ?files] by auto
  have load: "loadDB P ?st1 = JObj kvs"
    using store(1) loadDB_cong [of ?st1 st P] by simp
  have entry: "concat_entry P (loadDB P ?st1) label (found_descriptors P ?files) = Inr ?db"
    unfolding load using store(2) own by (rule concat_entry_wf)
  have saved: "localStorage (saveDB P ?db ?st1) = (localStorage st)(LS_DB_KEY \<mapsto> JSON_stringify P ?db)"
    by (simp add: saveDB_def setItem_def)
  show ?thesis
  proof (cases "makeFaceMatcherFromStorage P (saveDB P ?db ?st1)")
    case (Inl e)
    then show ?thesis
      using name loaded files found entry saved
      by (simp add: registerLabeledFaces_def Let_def extract_descriptors_eq console_log_def)
  next
    case (Inr st3)
    have "localStorage st3 = (localStorage st)(LS_DB_KEY \<mapsto> JSON_stringify P ?db)"
      using rebuild_storage [OF Inr] saved by simp
    then show ?thesis
      using name loaded files found entry Inr
      by (simp add: registerLabeledFaces_def Let_def extract_descriptors_eq alert_def)
  qed
qed

text \<open>
  A registration keeps a well-formed store well-formed, and on a well-formed store, with a
  codec that reads back what it writes, it reaches its last alert with the matcher built.
\<close>

lemma found_are_vectors: "list_all is_vector (found_descriptors P fs)"
  by (induction fs) (auto simp add: found_descriptors_def list_all_iff split: option.splits)

lemma collection_of_vectors:
  assumes "list_all (\<lambda>kv. is_collection (snd kv)) kvs"
  shows "list_all is_vector (collection_of (map_of kvs label))"
proof (cases "map_of kvs label")
  case None
  then show ?thesis by simp
next
  case (Some v)
  then have "(label, v) \<in> set kvs" by (rule map_of_SomeD)
  then have "is_collection v"
    using assms by (auto simp add: list_all_iff)
  then show ?thesis
    using Some by (cases v) auto
qed

lemma register_keeps_wf:
  assumes "wf_store (JObj kvs)"
  shows "wf_store (JObj (set_property label
     (JArr (collection_of (map_of kvs label) @ found_descriptors P fs)) kvs))"
proof -
  have coll: "list_all (\<lambda>kv. is_collection (snd kv)) kvs" and dist: "distinct (map fst kvs)"
    using assms by simp_all
  have "is_collection (JArr (collection_of (map_of kvs label) @ found_descriptors P fs))"
    using collection_of_vectors [OF coll] found_are_vectors by simp
  then show ?thesis
    using collections_set_property [OF coll] distinct_set_property [OF dist] by simp
qed

lemma register_reports:
  assumes name: "trim (labelNameInput st) = label" "label \<noteq> []"
    and loaded: "isModelsLoaded st"
    and store: "loadDB P st = JObj kvs" "wf_store (JObj kvs)"
    and own: "label \<notin> set Object_prototype_names \<or> map_of kvs label \<noteq> None"
    and faces: "0 < faces_in P (labeledImagesInput st)"
    and db: "db = JObj (set_property label
        (JArr (collection_of (map_of kvs label) @
           found_descriptors P (labeledImagesInput st))) kvs)"
    and codec: "JSON_parse P (JSON_stringify P db) = Some db" "JSON_parse P [] = None"
  shows "alerts (registerLabeledFaces P st) =
           alerts st @ [''Registered ${descriptors.length} face(s) for ${label}'']"
    and "loadDB P (registerLabeledFaces P st) = db"
    and "faceMatcher (registerLabeledFaces P st) \<noteq> None"
proof -
  let ?files = "labeledImagesInput st"
  let ?st1 = "st\<lparr>console := console st @ warnings P ?files\<rparr>"
  obtain kvs' where kvs': "db = JObj kvs'" and new: "kvs' = set_property label
        (JArr (collection_of (map_of kvs label) @ found_descriptors P ?files)) kvs"
    using db by blast
  have coll: "list_all (\<lambda>kv. is_collection (snd kv)) kvs"
    using store(2) by simp
  have files: "?files \<noteq> []"
    using faces by (auto simp add: faces_in_def)
  have found: "found_descriptors P ?files \<noteq> []"
    using faces length_found_descriptors [of P ?files] by auto
  have load: "loadDB P ?st1 = JObj kvs"
    using store(1) loadDB_cong [of ?st1 st P] by simp
  have entry: "concat_entry P (loadDB P ?st1) label (found_descriptors P ?files) = Inr db"
    unfolding load db using coll own by (rule concat_entry_wf)
  have nonempty: "JSON_stringify P db \<noteq> []"
    using codec by auto
  have reload: "loadDB P (saveDB P db ?st1) = JObj kvs'"
    using codec(1) nonempty kvs' by (simp add: loadDB_def saveDB_def setItem_def getItem_def)
  have "wf_store (JObj kvs')"
    unfolding new using store(2) by (rule register_keeps_wf)
  then have coll': "list_all (\<lambda>kv. is_collection (snd kv)) kvs'"
    by simp
  have names: "kvs' \<noteq> []"
    unfolding new by (cases kvs) auto
  have run: "makeFaceMatcherFromStorage P (saveDB P db ?st1) =
      Inr ((saveDB P db ?st1)\<lparr>dbCount := length kvs',
             faceMatcher := Some (FaceMatcher (map group_of kvs') (3 / 5))\<rparr>)"
    using rebuild_wf [OF reload coll'] names by simp
  have result: "registerLabeledFaces P st =
      (alert ''Registered ${descriptors.length} face(s) for ${label}''
         ((saveDB P db ?st1)\<lparr>dbCount := length kvs',
             faceMatcher := Some (FaceMatcher (map group_of kvs') (3 / 5))\<rparr>))
        \<lparr>labeledImagesInput := [], labelNameInput := []\<rparr>"
    using name loaded files found entry run
    by (simp add: registerLabeledFaces_def Let_def extract_descriptors_eq)
  show "alerts (registerLabeledFaces P st) =
           alerts st @ [''Registered ${descriptors.length} face(s) for ${label}'']"
    unfolding result by (simp add: alert_def saveDB_def setItem_def)
  show "faceMatcher (registerLabeledFaces P st) \<noteq> None"
    unfolding result by (simp add: alert_def)
  have "loadDB P (registerLabeledFaces P st) = loadDB P (saveDB P db ?st1)"
    unfolding result by (rule loadDB_cong) (simp add: alert_def)
  then show "loadDB P (registerLabeledFaces P st) = db"
    using reload kvs' by simp
qed

lemma register_ann:
  "registerLabeledFaces test_platform (page '' Ann '' (stored ann_store)) =
     (page [] (stored ann_store2))
       \<lparr>labeledImagesInput := [],
        console := [Warn ''No face found in wall.png''],
        alerts := [''Registered ${descriptors.length} face(s) for ${label}''],
        dbCount := 1,
        faceMatcher := Some (FaceMatcher [LabeledFaceDescriptors ''Ann''
            [Float32Array (JArr [JNum 1, JNum 2]), Float32Array (JArr [JNum 3, JNum 4])]] (3 / 5))\<rparr>"
  by (simp add: registerLabeledFaces_def Let_def trim_def is_space_def loadDB_def
      makeFaceMatcherFromStorage_def saveDB_def setItem_def alert_def console_log_def
      Object_prototype_names_def example_defs)

subsection \<open>When the matcher is absent\<close>

text \<open>
  Claim C1, as amended.  For every well-formed store, the rebuild returns, and the matcher it
  leaves is absent if and only if the store has no names at all.  A name whose descriptor
  collection is empty still contributes a labeled group, one without descriptors, and the
  matcher is present.
\<close>

theorem matcher_absent_iff_no_names:
  assumes "wf_store S" and "loadDB P st = S"
  shows "\<exists>st'. makeFaceMatcherFromStorage P st = Inr st' \<and>
           (faceMatcher st' = None \<longleftrightarrow> S = JObj []) \<and>
           (\<forall>label kvs. S = JObj kvs \<and> (label, JArr []) \<in> set kvs \<longrightarrow>
              (\<exists>groups. faceMatcher st' = Some (FaceMatcher groups (3 / 5)) \<and>
                 LabeledFaceDescriptors label [] \<in> set groups))"
proof -
  from assms(1) obtain kvs where S: "S = JObj kvs"
    and coll: "list_all (\<lambda>kv. is_collection (snd kv)) kvs"
    by (cases S) auto
  have run: "makeFaceMatcherFromStorage P st =
           Inr (st\<lparr>dbCount := length kvs,
                   faceMatcher := (if kvs = [] then None
                                   else Some (FaceMatcher (map group_of kvs) (3 / 5)))\<rparr>)"
    using rebuild_wf assms(2) S coll by simp
  have empty_group: "LabeledFaceDescriptors label [] \<in> set (map group_of kvs)"
    if "(label, JArr []) \<in> set kvs" for label
  proof -
    have "group_of (label, JArr []) \<in> group_of ` set kvs"
      using that by (rule imageI)
    then show ?thesis by simp
  qed
  show ?thesis
    using run S empty_group by auto
qed

theorem matcher_absent_iff_no_names_witness:
  "wf_store alice_empty \<and>
   loadDB test_platform (page [] (stored alice_empty)) = alice_empty \<and>
   (\<exists>st'. makeFaceMatcherFromStorage test_platform (page [] (stored alice_empty)) = Inr st' \<and>
      faceMatcher st' = Some (FaceMatcher [LabeledFaceDescriptors ''Alice'' []] (3 / 5)))"
proof -
  have wf: "wf_store alice_empty" by (simp add: alice_empty_def)
  have mem: "(''Alice'', JArr []) \<in> set [(''Alice'', JArr [])]" by simp
  obtain st' where run: "makeFaceMatcherFromStorage test_platform
      (page [] (stored alice_empty)) = Inr st'"
    using matcher_absent_iff_no_names [OF wf load_alice_empty] by blast
  have "faceMatcher st' = Some (FaceMatcher [LabeledFaceDescriptors ''Alice'' []] (3 / 5))"
    using run unfolding makeFaceMatcherFromStorage_def load_alice_empty
    by (auto simp add: alice_empty_def)
  then show ?thesis
    using wf load_alice_empty run by simp
qed

text \<open>
  The claim as it is written fails on the store \<open>{"Alice": []}\<close>: every name maps to an
  empty collection, and the matcher is there.
\<close>

theorem empty_collection_keeps_matcher:
  "\<not> (rebuilt_matcher test_platform (page [] (stored alice_empty)) = Inr None
      \<longleftrightarrow> alice_empty = JObj [] \<or> every_collection_empty alice_empty)"
  by (simp add: rebuilt_matcher_def makeFaceMatcherFromStorage_def load_alice_empty)
    (simp add: alice_empty_def)

subsection \<open>The options of the detection call\<close>

text \<open>
  Claim C2 says that every frame passes to the detector the options computed from the
  controls.  The code computes them and then passes a fixed option set: with the controls at
  \<open>tiny\<close>, 416 and 0.3, the frame stores the tiny detector's options with input size 416
  and threshold 0.3, and calls the detector with the other variant at confidence 0.5.
\<close>

theorem tick_ignores_detection_options:
  "detectorCalls (detectionLoop test_platform (page [] None)) =
     [SsdMobilenetv1Options (1 / 2)] \<and>
   detectionOptions (detectionLoop test_platform (page [] None)) =
     TinyFaceDetectorOptions 416 (3 / 10)"
proof -
  have r: "running (page [] None)" and l: "isModelsLoaded (page [] None)"
    by (simp_all add: page_def)
  show ?thesis
    using detectionLoop_options [OF r l, of test_platform]
    by (simp add: updateDetectionOptions_def page_def Let_def)
qed

subsection \<open>Registration under a name that every object inherits\<close>

text \<open>
  Claim C3 says that a registration with at least one detected face appends the descriptors
  to the entry of the name, creating the entry if it is absent.  Lemmas \<open>register_appends\<close>
  and \<open>register_reports\<close> show this for a well-formed store and a name that is an own
  property of the store or is not a property of \<open>Object.prototype\<close>, and lemma
  \<open>register_no_faces\<close> shows that nothing is written when no file has a face.  For the name \<open>constructor\<close> and an empty
  store the code fails: of the two files one has a face, \<open>db[label]\<close> is the inherited
  function, the call of its \<open>concat\<close> throws, and nothing is stored and no alert is shown.
\<close>

theorem register_under_inherited_name:
  "faces_in test_platform (labeledImagesInput constructor_page) = 1 \<and>
   labelNameInput constructor_page = ''constructor'' \<and>
   loadDB test_platform constructor_page = JObj [] \<and>
   localStorage (registerLabeledFaces test_platform constructor_page) =
     localStorage constructor_page \<and>
   alerts (registerLabeledFaces test_platform constructor_page) = [] \<and>
   console (registerLabeledFaces test_platform constructor_page) =
     [Warn ''No face found in wall.png'', Uncaught TypeError]"
  by (simp add: constructor_page_def page_def faces_in_def test_platform_def documents_def
      registerLabeledFaces_def Let_def trim_def is_space_def loadDB_def getItem_def
      LS_DB_KEY_def console_log_def Object_prototype_names_def)

subsection \<open>Import of a text that is not JSON\<close>

text \<open>
  Claim C4.  When the text of the imported file fails to parse, the handler shows the alert
  \<open>Invalid JSON file\<close> and changes nothing else: the key-value store and the matcher in
  memory are what they were.
\<close>

theorem import_invalid_json_unchanged:
  assumes "JSON_parse P text = None"
  shows "importFileInput_change P (Some text) st =
           st\<lparr>alerts := alerts st @ [''Invalid JSON file'']\<rparr> \<and>
         localStorage (importFileInput_change P (Some text) st) = localStorage st \<and>
         faceMatcher (importFileInput_change P (Some text) st) = faceMatcher st"
  using assms by (simp add: importFileInput_change_def alert_def)

theorem import_invalid_json_unchanged_witness:
  "JSON_parse test_platform ''{oops'' = None \<and>
   localStorage (importFileInput_change test_platform (Some ''{oops'')
       (page [] (stored ann_store))) = localStorage (page [] (stored ann_store)) \<and>
   faceMatcher (importFileInput_change test_platform (Some ''{oops'')
       (page [] (stored ann_store))) = faceMatcher (page [] (stored ann_store)) \<and>
   alerts (importFileInput_change test_platform (Some ''{oops'')
       (page [] (stored ann_store))) = [''Invalid JSON file'']"
  using import_invalid_json_unchanged [OF parse_oops, of "page [] (stored ann_store)"] parse_oops
  by (simp add: page_def)

subsection \<open>The matcher after a change of the store\<close>






text \<open>
  An import whose text parses to something that is not a store does not report success:
  the text \<open>null\<close> is written, the rebuild throws inside the \<open>try\<close>, the alert says
  \<open>Invalid JSON file\<close>, and the matcher stays as it was.
\<close>

lemma import_null_overwrites:
  "localStorage (importFileInput_change test_platform (Some ''null'')
       (page [] (stored ann_store))) LS_DB_KEY = Some ''null'' \<and>
   alerts (importFileInput_change test_platform (Some ''null'') (page [] (stored ann_store))) =
     [''Invalid JSON file''] \<and>
   rebuilt_matcher test_platform
     (importFileInput_change test_platform (Some ''null'') (page [] (stored ann_store))) =
     Inl TypeError"
  by (simp add: importFileInput_change_def Let_def makeFaceMatcherFromStorage_def
      rebuilt_matcher_def loadDB_def setItem_def alert_def example_defs)

subsection \<open>Save, then load\<close>



subsection \<open>Load of a corrupt or absent entry\<close>

text \<open>
  Claim C7.  When the entry is absent, or holds a text that is not JSON, \<open>loadDB\<close> returns
  the empty store.  It returns a value in every case: its \<open>catch\<close> leaves no exception to
  raise.  (The platform parses \<open>{}\<close> to the empty object.)
\<close>

theorem loadDB_recovers_silently:
  assumes "JSON_parse P ''{}'' = Some (JObj [])"
    and "getItem LS_DB_KEY st = None \<or>
         (\<exists>s. getItem LS_DB_KEY st = Some s \<and> JSON_parse P s = None)"
  shows "loadDB P st = JObj []"
  using assms by (auto simp add: loadDB_def)

theorem loadDB_recovers_silently_witness:
  "JSON_parse test_platform ''{}'' = Some (JObj []) \<and>
   getItem LS_DB_KEY (page [] (Some ''{oops'')) = Some ''{oops'' \<and>
   JSON_parse test_platform ''{oops'' = None \<and>
   loadDB test_platform (page [] (Some ''{oops'')) = JObj [] \<and>
   getItem LS_DB_KEY (page [] None) = None \<and>
   loadDB test_platform (page [] None) = JObj []"
proof -
  have at: "getItem LS_DB_KEY (page [] (Some ''{oops'')) = Some ''{oops''"
    by (simp add: getItem_def page_def)
  have absent: "getItem LS_DB_KEY (page [] None) = None"
    by (simp add: getItem_def page_def)
  have corrupt: "getItem LS_DB_KEY (page [] (Some ''{oops'')) = None \<or>
         (\<exists>s. getItem LS_DB_KEY (page [] (Some ''{oops'')) = Some s \<and>
              JSON_parse test_platform s = None)"
    using at parse_oops by simp
  show ?thesis
    using loadDB_recovers_silently [OF parse_braces corrupt]
      loadDB_recovers_silently [OF parse_braces disjI1 [OF absent]]
      parse_braces parse_oops at absent
    by simp
qed

subsection \<open>The expression of a face\<close>

lemma first_max_all_le: "first_max expr m \<Longrightarrow> e \<in> set expr \<Longrightarrow> snd e \<le> snd m"
  by (fastforce simp add: first_max_def)

lemma sorted_head_first_max:
  "expr \<noteq> [] \<Longrightarrow> \<exists>m rest. Array_sort (\<lambda>a b. snd b - snd a) expr = m # rest \<and> first_max expr m"
proof (induction expr)
  case Nil
  then show ?case by simp
next
  case (Cons x xs)
  show ?case
  proof (cases "xs = []")
    case True
    have "first_max [x] x"
      unfolding first_max_def by (intro exI [of _ "[]"]) simp
    then show ?thesis using True by simp
  next
    case False
    then obtain m rest where sorted: "Array_sort (\<lambda>a b. snd b - snd a) xs = m # rest"
      and fm: "first_max xs m"
      using Cons.IH by blast
    show ?thesis
    proof (cases "snd m \<le> snd x")
      case True
      have all: "\<forall>e \<in> set xs. snd e \<le> snd x"
        using first_max_all_le [OF fm] True by force
      have "first_max (x # xs) x"
        unfolding first_max_def using all by (intro exI [of _ "[]"] exI [of _ xs]) simp
      moreover have "Array_sort (\<lambda>a b. snd b - snd a) (x # xs) = x # m # rest"
        using sorted True by simp
      ultimately show ?thesis by blast
    next
      case False
      from fm obtain before after where split: "xs = before @ m # after"
        and b: "\<forall>e \<in> set before. snd e < snd m" and a: "\<forall>e \<in> set after. snd e \<le> snd m"
        unfolding first_max_def by blast
      have "first_max (x # xs) m"
        unfolding first_max_def
        using split b a False by (intro exI [of _ "x # before"] exI [of _ after]) auto
      moreover have "Array_sort (\<lambda>a b. snd b - snd a) (x # xs) = m # sort_insert (\<lambda>a b. snd b - snd a) x rest"
        using sorted False by simp
      ultimately show ?thesis by blast
    qed
  qed
qed

text \<open>
  Claim C8.  For a face whose expressions are not empty, the expression that the render loop
  writes has a score that no expression of the face exceeds, and among the expressions with
  that score it is the one listed first.
\<close>

theorem reported_expression_is_first_maximum:
  assumes "expressions det = Some expr" and "expr \<noteq> []"
  shows "\<exists>name score before after.
           expr = before @ (name, score) # after \<and>
           (\<forall>e \<in> set before. snd e < score) \<and>
           (\<forall>e \<in> set after. snd e \<le> score) \<and>
           maxExp expr = Some (name, score) \<and>
           expressionsEl (fst (show_face P (st, ids) det)) =
             ExprText name (Math_round (score * 100))"
proof -
  obtain m rest where sorted: "Array_sort (\<lambda>a b. snd b - snd a) expr = m # rest"
    and fm: "first_max expr m"
    using sorted_head_first_max [OF assms(2)] by blast
  obtain name score where m: "m = (name, score)" by (cases m)
  have pick: "maxExp expr = Some (name, score)"
    using sorted m by (simp add: maxExp_def)
  have shown: "expressionsEl (fst (show_face P (st, ids) det)) =
      ExprText name (Math_round (score * 100))"
    using assms(1) pick
    by (simp add: show_face_def expText_def Let_def split: option.splits)
  from fm m obtain before after where "expr = before @ (name, score) # after"
    and "\<forall>e \<in> set before. snd e < score" and "\<forall>e \<in> set after. snd e \<le> score"
    unfolding first_max_def by auto
  then show ?thesis
    using pick shown by blast
qed

theorem reported_expression_is_first_maximum_witness:
  "expressions tied = Some tied_expressions \<and> tied_expressions \<noteq> [] \<and>
   maxExp tied_expressions = Some (''happy'', 2 / 5) \<and>
   expressionsEl (fst (show_face test_platform (page [] None, []) tied)) = ExprText ''happy'' 40"
proof -
  have e: "expressions tied = Some tied_expressions"
    by (simp add: tied_def)
  have ne: "tied_expressions \<noteq> []"
    by (simp add: tied_expressions_def)
  have pick: "maxExp tied_expressions = Some (''happy'', 2 / 5)"
    by (simp add: maxExp_def tied_expressions_def)
  have round: "Math_round (2 / 5 * 100) = 40"
    unfolding Math_round_def by (rule floor_unique) simp_all
  obtain name score where chosen: "maxExp tied_expressions = Some (name, score)"
    and shown: "expressionsEl (fst (show_face test_platform (page [] None, []) tied)) =
             ExprText name (Math_round (score * 100))"
    using reported_expression_is_first_maximum [OF e ne, of test_platform "page [] None" "[]"]
    by blast
  have "Some (name, score) = Some (''happy'', 2 / 5)"
    using chosen pick by (simp only:)
  then have "name = ''happy''" and "score = 2 / 5"
    by (simp_all only: option.inject prod.inject)
  then have "expressionsEl (fst (show_face test_platform (page [] None, []) tied)) =
      ExprText ''happy'' 40"
    using shown round by (simp only:)
  then show ?thesis
    using e ne pick by (simp only: simp_thms)
qed

subsection \<open>The name of a registration\<close>

lemma trim_all_space:
  assumes "\<forall>c \<in> set s. is_space c"
  shows "trim s = []"
proof -
  have "dropWhile is_space s = []"
    using assms by (simp only: dropWhile_eq_Nil_conv)
  then show ?thesis
    unfolding trim_def by (simp only: rev.simps dropWhile.simps)
qed

lemma strip_end_keeps_head:
  assumes "t = [] \<or> \<not> Q (hd t)"
  shows "dropWhile Q (rev (dropWhile Q (rev t))) = rev (dropWhile Q (rev t))"
proof (cases "rev (dropWhile Q (rev t)) = []")
  case True
  have "dropWhile Q [] = []" by simp
  with True show ?thesis by (simp only:)
next
  case False
  have split: "t = rev (dropWhile Q (rev t)) @ rev (takeWhile Q (rev t))"
    by (metis rev_append rev_rev_ident takeWhile_dropWhile_id)
  then have "t \<noteq> []"
    using False by (metis append_is_Nil_conv)
  then have "\<not> Q (hd t)"
    using assms by blast
  moreover have "hd t = hd (rev (dropWhile Q (rev t)))"
    using split False by (metis hd_append2)
  ultimately have "\<not> Q (hd (rev (dropWhile Q (rev t))))"
    by metis
  then show ?thesis
    by (metis dropWhile_eq_self_iff)
qed

lemma dropWhile_strip_end:
  "dropWhile Q (rev (dropWhile Q (rev (dropWhile Q s)))) = rev (dropWhile Q (rev (dropWhile Q s)))"
proof -
  have "dropWhile Q s = [] \<or> \<not> Q (hd (dropWhile Q s))"
    using hd_dropWhile [of Q s] by blast
  then show ?thesis
    by (rule strip_end_keeps_head)
qed

lemma trim_idem: "trim (trim s) = trim s"
  unfolding trim_def by (simp only: dropWhile_strip_end rev_rev_ident dropWhile_idem)

lemma makeFaceMatcher_name:
  "makeFaceMatcherFromStorage P (s\<lparr>labelNameInput := a\<rparr>) =
     (case makeFaceMatcherFromStorage P s of
        Inl e \<Rightarrow> Inl e
      | Inr s' \<Rightarrow> Inr (s'\<lparr>labelNameInput := a\<rparr>))"
proof -
  have "loadDB P (s\<lparr>labelNameInput := a\<rparr>) = loadDB P s"
    by (rule loadDB_cong) simp
  then show ?thesis
    by (auto simp add: makeFaceMatcherFromStorage_def split: sum.splits prod.splits)
qed

lemma register_name_trim_only:
  assumes "trim a = trim b"
  shows "(registerLabeledFaces P (st\<lparr>labelNameInput := a\<rparr>))\<lparr>labelNameInput := n\<rparr> =
         (registerLabeledFaces P (st\<lparr>labelNameInput := b\<rparr>))\<lparr>labelNameInput := n\<rparr>"
proof -
  let ?files = "labeledImagesInput st"
  let ?ds = "found_descriptors P ?files"
  let ?st1 = "st\<lparr>console := console st @ warnings P ?files\<rparr>"
  have load: "loadDB P (st\<lparr>labelNameInput := x, console := console st @ warnings P ?files\<rparr>) =
      loadDB P ?st1" for x
    by (rule loadDB_cong) simp
  have save: "saveDB P db (st\<lparr>labelNameInput := x, console := console st @ warnings P ?files\<rparr>) =
      (saveDB P db ?st1)\<lparr>labelNameInput := x\<rparr>" for x db
    by (simp add: saveDB_def setItem_def)
  note unfold = registerLabeledFaces_def Let_def extract_descriptors_eq alert_def
    console_log_def assms load save makeFaceMatcher_name
  show ?thesis
  proof (cases "concat_entry P (loadDB P ?st1) (trim b) ?ds")
    case (Inl e)
    then show ?thesis by (simp add: unfold)
  next
    case (Inr db)
    show ?thesis
    proof (cases "makeFaceMatcherFromStorage P (saveDB P db ?st1)")
      case (Inl e)
      then show ?thesis using Inr by (simp add: unfold)
    next
      case st3: (Inr st3)
      then show ?thesis using Inr by (simp add: unfold)
    qed
  qed
qed

lemma register_files_under_label:
  "localStorage (registerLabeledFaces P st) = localStorage st \<or>
   (\<exists>db ds. ds \<noteq> [] \<and>
      concat_entry P (loadDB P st) (trim (labelNameInput st)) ds = Inr db \<and>
      localStorage (registerLabeledFaces P st) =
        (localStorage st)(LS_DB_KEY \<mapsto> JSON_stringify P db))"
proof -
  let ?files = "labeledImagesInput st"
  let ?label = "trim (labelNameInput st)"
  let ?ds = "found_descriptors P ?files"
  let ?st1 = "st\<lparr>console := console st @ warnings P ?files\<rparr>"
  have load: "loadDB P ?st1 = loadDB P st"
    by (rule loadDB_cong) simp
  note unfold = registerLabeledFaces_def Let_def extract_descriptors_eq alert_def
    console_log_def load
  show ?thesis
  proof (cases "?label = [] \<or> ?files = [] \<or> \<not> isModelsLoaded st \<or> ?ds = []")
    case True
    then have "localStorage (registerLabeledFaces P st) = localStorage st"
      by (auto simp add: unfold)
    then show ?thesis ..
  next
    case guards: False
    show ?thesis
    proof (cases "concat_entry P (loadDB P st) ?label ?ds")
      case (Inl e)
      then have "localStorage (registerLabeledFaces P st) = localStorage st"
        using guards by (simp add: unfold)
      then show ?thesis ..
    next
      case (Inr db)
      have saved: "localStorage (saveDB P db ?st1) =
          (localStorage st)(LS_DB_KEY \<mapsto> JSON_stringify P db)"
        by (simp add: saveDB_def setItem_def)
      have "localStorage (registerLabeledFaces P st) =
          (localStorage st)(LS_DB_KEY \<mapsto> JSON_stringify P db)"
      proof (cases "makeFaceMatcherFromStorage P (saveDB P db ?st1)")
        case (Inl e)
        then show ?thesis using guards Inr saved by (simp add: unfold)
      next
        case st3: (Inr st3)
        have "localStorage st3 = (localStorage st)(LS_DB_KEY \<mapsto> JSON_stringify P db)"
          using rebuild_storage [OF st3] saved by simp
        then show ?thesis using guards Inr st3 by (simp add: unfold)
      qed
      then show ?thesis
        using guards Inr by blast
    qed
  qed
qed

text \<open>
  Claim C9.  A name of white space only is rejected as the empty name is: the alert
  \<open>Enter a name to register\<close> and nothing else, so no file is looked at, nothing is
  stored and no matcher is built.  A registration does the same for a name and for the
  trimmed name (the name field apart, which a failed registration leaves as it is).  When
  it writes the store, the new document is the old one with the descriptors added under
  the trimmed name, and every other name of the store keeps its entry.
\<close>

theorem register_trims_name:
  "((\<forall>c \<in> set (labelNameInput st). is_space c) \<longrightarrow>
      registerLabeledFaces P st = alert ''Enter a name to register'' st) \<and>
   (registerLabeledFaces P (st\<lparr>labelNameInput := trim (labelNameInput st)\<rparr>))
      \<lparr>labelNameInput := n\<rparr> =
     (registerLabeledFaces P st)\<lparr>labelNameInput := n\<rparr> \<and>
   (localStorage (registerLabeledFaces P st) = localStorage st \<or>
    (\<exists>db ds. ds \<noteq> [] \<and>
       concat_entry P (loadDB P st) (trim (labelNameInput st)) ds = Inr db \<and>
       (\<forall>kvs k. loadDB P st = JObj kvs \<and> k \<noteq> trim (labelNameInput st) \<longrightarrow>
          entry db k = map_of kvs k) \<and>
       localStorage (registerLabeledFaces P st) =
         (localStorage st)(LS_DB_KEY \<mapsto> JSON_stringify P db)))"
proof (intro conjI impI)
  assume "\<forall>c \<in> set (labelNameInput st). is_space c"
  then have "trim (labelNameInput st) = []" by (rule trim_all_space)
  then show "registerLabeledFaces P st = alert ''Enter a name to register'' st"
    by (simp add: registerLabeledFaces_def)
next
  have "st\<lparr>labelNameInput := labelNameInput st\<rparr> = st" by simp
  then show "(registerLabeledFaces P (st\<lparr>labelNameInput := trim (labelNameInput st)\<rparr>))
      \<lparr>labelNameInput := n\<rparr> = (registerLabeledFaces P st)\<lparr>labelNameInput := n\<rparr>"
    using register_name_trim_only
        [where a = "trim (labelNameInput st)" and b = "labelNameInput st" and P = P
          and st = st and n = n]
    by (simp add: trim_idem)
next
  show "localStorage (registerLabeledFaces P st) = localStorage st \<or>
    (\<exists>db ds. ds \<noteq> [] \<and>
       concat_entry P (loadDB P st) (trim (labelNameInput st)) ds = Inr db \<and>
       (\<forall>kvs k. loadDB P st = JObj kvs \<and> k \<noteq> trim (labelNameInput st) \<longrightarrow>
          entry db k = map_of kvs k) \<and>
       localStorage (registerLabeledFaces P st) =
         (localStorage st)(LS_DB_KEY \<mapsto> JSON_stringify P db))"
    using register_files_under_label [of P st] concat_entry_others by metis
qed

theorem register_trims_name_witness:
  "list_all is_space ''  '' \<and>
   registerLabeledFaces test_platform (page ''  '' (stored ann_store)) =
     alert ''Enter a name to register'' (page ''  '' (stored ann_store)) \<and>
   trim '' Ann '' = ''Ann'' \<and>
   localStorage (registerLabeledFaces test_platform (page '' Ann '' (stored ann_store)))
     LS_DB_KEY = stored ann_store2"
proof -
  have spaces: "list_all is_space ''  ''"
    by (simp add: is_space_def)
  then have "\<forall>c \<in> set (labelNameInput (page ''  '' (stored ann_store))). is_space c"
    by (simp add: page_def)
  then have rejected: "registerLabeledFaces test_platform (page ''  '' (stored ann_store)) =
      alert ''Enter a name to register'' (page ''  '' (stored ann_store))"
    using register_trims_name [of "page ''  '' (stored ann_store)" test_platform] by blast
  have trimmed: "trim '' Ann '' = ''Ann''"
    by (simp add: trim_def is_space_def)
  have filed: "localStorage (registerLabeledFaces test_platform
      (page '' Ann '' (stored ann_store))) LS_DB_KEY = stored ann_store2"
    by (simp add: register_ann) (simp add: page_def)
  show ?thesis
    using spaces rejected trimmed filed by (simp only: simp_thms)
qed

subsection \<open>The one key of the key-value store\<close>

text \<open>
  Every handler commutes with a change of any other entry of the key-value store: it neither
  reads nor writes it.
\<close>

lemma alert_with_entry: "alert msg (with_entry k v st) = with_entry k v (alert msg st)"
  by (simp add: alert_def with_entry_def)

lemma console_log_with_entry:
  "console_log l (with_entry k v st) = with_entry k v (console_log l st)"
  by (simp add: console_log_def with_entry_def)

lemma setItem_with_entry:
  "k \<noteq> LS_DB_KEY \<Longrightarrow>
   setItem LS_DB_KEY x (with_entry k v st) = with_entry k v (setItem LS_DB_KEY x st)"
  by (simp add: setItem_def with_entry_def fun_upd_twist [of k])

lemma removeItem_with_entry:
  "k \<noteq> LS_DB_KEY \<Longrightarrow>
   removeItem LS_DB_KEY (with_entry k v st) = with_entry k v (removeItem LS_DB_KEY st)"
  by (simp add: removeItem_def with_entry_def fun_upd_twist [of k])

lemma loadDB_with_entry: "k \<noteq> LS_DB_KEY \<Longrightarrow> loadDB P (with_entry k v st) = loadDB P st"
  by (simp add: loadDB_def getItem_def with_entry_def)

lemma saveDB_with_entry:
  "k \<noteq> LS_DB_KEY \<Longrightarrow> saveDB P db (with_entry k v st) = with_entry k v (saveDB P db st)"
  by (simp add: saveDB_def setItem_with_entry)

lemma makeFaceMatcher_with_entry:
  "k \<noteq> LS_DB_KEY \<Longrightarrow>
   makeFaceMatcherFromStorage P (with_entry k v st) =
     (case makeFaceMatcherFromStorage P st of
        Inl e \<Rightarrow> Inl e
      | Inr st' \<Rightarrow> Inr (with_entry k v st'))"
  by (simp add: makeFaceMatcherFromStorage_def loadDB_with_entry split: sum.splits prod.splits)
    (simp add: with_entry_def)

lemma rebuild_with_entry:
  "k \<noteq> LS_DB_KEY \<Longrightarrow> rebuild P (with_entry k v st) = with_entry k v (rebuild P st)"
  by (simp add: rebuild_def makeFaceMatcher_with_entry console_log_with_entry split: sum.splits)

lemma extract_with_entry:
  "extract_descriptors P fs ds (with_entry k v st) =
     (case extract_descriptors P fs ds st of (ds', st') \<Rightarrow> (ds', with_entry k v st'))"
  by (induction fs arbitrary: ds st) (simp_all add: console_log_with_entry split: option.splits)

lemma register_with_entry:
  assumes "k \<noteq> LS_DB_KEY"
  shows "registerLabeledFaces P (with_entry k v st) = with_entry k v (registerLabeledFaces P st)"
proof -
  have fields: "labeledImagesInput (with_entry k v st) = labeledImagesInput st"
    "labelNameInput (with_entry k v st) = labelNameInput st"
    "isModelsLoaded (with_entry k v st) = isModelsLoaded st"
    by (simp_all add: with_entry_def)
  have reset: "(with_entry k v s)\<lparr>labeledImagesInput := [], labelNameInput := []\<rparr> =
      with_entry k v (s\<lparr>labeledImagesInput := [], labelNameInput := []\<rparr>)" for s
    by (simp add: with_entry_def)
  obtain ds st1 where ex: "extract_descriptors P (labeledImagesInput st) [] st = (ds, st1)"
    by (cases "extract_descriptors P (labeledImagesInput st) [] st")
  have ex': "extract_descriptors P (labeledImagesInput st) [] (with_entry k v st) =
      (ds, with_entry k v st1)"
    using ex by (simp add: extract_with_entry)
  note unfold = registerLabeledFaces_def Let_def fields ex ex' alert_with_entry
    console_log_with_entry loadDB_with_entry [OF assms] saveDB_with_entry [OF assms]
    makeFaceMatcher_with_entry [OF assms] reset
  show ?thesis
  proof (cases "concat_entry P (loadDB P st1) (trim (labelNameInput st)) ds")
    case (Inl e)
    then show ?thesis by (simp add: unfold)
  next
    case (Inr db)
    show ?thesis
    proof (cases "makeFaceMatcherFromStorage P (saveDB P db st1)")
      case (Inl e)
      then show ?thesis using Inr by (simp add: unfold)
    next
      case (Inr st3)
      then show ?thesis using \<open>concat_entry P (loadDB P st1) (trim (labelNameInput st)) ds = Inr db\<close>
        by (simp add: unfold)
    qed
  qed
qed

lemma clear_with_entry:
  "k \<noteq> LS_DB_KEY \<Longrightarrow>
   btnClearDB_click P c (with_entry k v st) = with_entry k v (btnClearDB_click P c st)"
  by (simp add: btnClearDB_click_def removeItem_with_entry rebuild_with_entry)

lemma export_with_entry:
  "k \<noteq> LS_DB_KEY \<Longrightarrow>
   btnExport_click P (with_entry k v st) = with_entry k v (btnExport_click P st)"
  by (simp add: btnExport_click_def loadDB_with_entry Let_def) (simp add: with_entry_def)

lemma import_with_entry:
  "k \<noteq> LS_DB_KEY \<Longrightarrow>
   importFileInput_change P f (with_entry k v st) =
     with_entry k v (importFileInput_change P f st)"
  by (simp add: importFileInput_change_def Let_def alert_with_entry setItem_with_entry
      makeFaceMatcher_with_entry split: option.splits sum.splits)

lemma loadModels_with_entry:
  assumes "k \<noteq> LS_DB_KEY"
  shows "loadModels P (with_entry k v st) = with_entry k v (loadModels P st)"
proof -
  have a: "(with_entry k v st)\<lparr>modelsStatus := Loading\<rparr>\<lparr>isModelsLoaded := True, modelsStatus := Loaded\<rparr>
      = with_entry k v (st\<lparr>modelsStatus := Loading\<rparr>\<lparr>isModelsLoaded := True, modelsStatus := Loaded\<rparr>)"
    by (simp add: with_entry_def)
  have b: "(with_entry k v s)\<lparr>modelsStatus := x\<rparr> = with_entry k v (s\<lparr>modelsStatus := x\<rparr>)" for s x
    by (simp add: with_entry_def)
  show ?thesis
    using assms unfolding loadModels_def Let_def a
    by (simp add: b makeFaceMatcher_with_entry console_log_with_entry split: sum.splits)
qed

lemma update_options_with_entry:
  "updateDetectionOptions (with_entry k v st) = with_entry k v (updateDetectionOptions st)"
  by (simp add: updateDetectionOptions_def Let_def with_entry_def)

lemma show_face_with_entry:
  "show_face P (with_entry k v st, ids) det =
     (case show_face P (st, ids) det of (st', ids') \<Rightarrow> (with_entry k v st', ids'))"
  by (simp add: show_face_def Let_def with_entry_def split: option.splits)

lemma faces_with_entry:
  "foldl (show_face P) (with_entry k v st, ids) dets =
     (case foldl (show_face P) (st, ids) dets of (st', ids') \<Rightarrow> (with_entry k v st', ids'))"
proof (induction dets arbitrary: st ids)
  case Nil
  then show ?case by simp
next
  case (Cons det dets)
  obtain st1 ids1 where step: "show_face P (st, ids) det = (st1, ids1)"
    by (cases "show_face P (st, ids) det")
  show ?case
    using Cons.IH [of st1 ids1] by (simp add: show_face_with_entry step)
qed

lemma detectionLoop_with_entry:
  "detectionLoop P (with_entry k v st) = with_entry k v (detectionLoop P st)"
proof -
  have fields: "running (with_entry k v st) = running st"
    "isModelsLoaded (with_entry k v st) = isModelsLoaded st"
    by (simp_all add: with_entry_def)
  have raf: "requestAnimationFrame (with_entry k v s) = with_entry k v (requestAnimationFrame s)" for s
    by (simp add: requestAnimationFrame_def with_entry_def)
  have calls: "(with_entry k v s)\<lparr>detectorCalls := detectorCalls (with_entry k v s) @ [x]\<rparr> =
      with_entry k v (s\<lparr>detectorCalls := detectorCalls s @ [x]\<rparr>)" for s x
    by (simp add: with_entry_def)
  have idl: "(with_entry k v s)\<lparr>identifiedList := x\<rparr> = with_entry k v (s\<lparr>identifiedList := x\<rparr>)" for s x
    by (simp add: with_entry_def)
  show ?thesis
    unfolding detectionLoop_def Let_def fields update_options_with_entry calls faces_with_entry
    by (simp add: raf idl split: prod.splits)
qed

lemma startVideo_with_entry:
  "startVideo P (with_entry k v st) = with_entry k v (startVideo P st)"
proof -
  have a: "(with_entry k v st)\<lparr>stream_open := True, running := True\<rparr> =
      with_entry k v (st\<lparr>stream_open := True, running := True\<rparr>)"
    by (simp add: with_entry_def)
  show ?thesis
    unfolding startVideo_def a
    by (simp add: detectionLoop_with_entry alert_with_entry console_log_with_entry)
qed

lemma start_with_entry:
  "k \<noteq> LS_DB_KEY \<Longrightarrow>
   btnStart_click P (with_entry k v st) = with_entry k v (btnStart_click P st)"
  by (simp add: btnStart_click_def startVideo_with_entry loadModels_with_entry)
    (simp add: with_entry_def)

lemma stopVideo_with_entry: "stopVideo (with_entry k v st) = with_entry k v (stopVideo st)"
  by (simp add: stopVideo_def with_entry_def)

lemma loaded_with_entry:
  "k \<noteq> LS_DB_KEY \<Longrightarrow>
   DOMContentLoaded P (with_entry k v st) = with_entry k v (DOMContentLoaded P st)"
  by (simp add: DOMContentLoaded_def rebuild_with_entry alert_with_entry)

lemma handle_with_entry:
  "k \<noteq> LS_DB_KEY \<Longrightarrow> handle P ev (with_entry k v st) = with_entry k v (handle P ev st)"
  by (cases ev)
    (simp_all add: loadModels_with_entry start_with_entry stopVideo_with_entry
      update_options_with_entry detectionLoop_with_entry register_with_entry clear_with_entry
      export_with_entry import_with_entry loaded_with_entry)

text \<open>
  Claim C10.  Whatever the event, an entry of the key-value store under a key other than
  \<open>facelab_db_v1\<close> is after the handler what it was before, and the handler does the
  same whatever that entry holds: load, save, clear, export and import, and every other
  handler of the page, read and write the one key only.
\<close>

theorem only_db_key_touched:
  assumes "k \<noteq> LS_DB_KEY"
  shows "localStorage (handle P ev st) k = localStorage st k \<and>
         handle P ev (with_entry k v st) = with_entry k v (handle P ev st)"
proof -
  have same: "with_entry k (localStorage st k) st = st"
    by (simp add: with_entry_def)
  have "localStorage (with_entry k (localStorage st k) (handle P ev st)) k = localStorage st k"
    by (simp add: with_entry_def)
  then have "localStorage (handle P ev st) k = localStorage st k"
    using handle_with_entry [OF assms, of P ev "localStorage st k" st] same by simp
  then show ?thesis
    using handle_with_entry [OF assms] by simp
qed

theorem only_db_key_touched_witness:
  "''theme'' \<noteq> LS_DB_KEY \<and>
   localStorage (handle test_platform RegisterClick
       (with_entry ''theme'' (Some ''dark'') (page '' Ann '' (stored ann_store)))) ''theme'' =
     Some ''dark''"
proof -
  have other: "''theme'' \<noteq> LS_DB_KEY"
    by (simp add: LS_DB_KEY_def)
  have "localStorage (with_entry ''theme'' (Some ''dark'') (page '' Ann '' (stored ann_store)))
      ''theme'' = Some ''dark''"
    by (simp add: with_entry_def)
  then show ?thesis
    using only_db_key_touched [OF other, of test_platform RegisterClick
        "with_entry ''theme'' (Some ''dark'') (page '' Ann '' (stored ann_store))"] other
    by simp
qed

end
